theory Spec2Isabelle
  imports Complex_Main
begin

section \<open>Common data: errors, quantities, dictionaries\<close>

text \<open>
  The Python exceptions the modelled code can raise. A \<open>ValueError\<close> carries its message,
  so that the descriptive errors of the source stay visible in the model.
\<close>

datatype error =
    ValueError string
  | AssertionError
  | KeyError
  | IndexError
  | AttributeError

text \<open>
  \<open>renormalizer.utils.Quantity\<close>: unit conversion lies outside the modelled sources, so a
  quantity carries its value in atomic units and \<open>as_au\<close> reads it.
\<close>

datatype Quantity = Quantity real

fun as_au :: "Quantity \<Rightarrow> real" where
  "as_au (Quantity x) = x"

text \<open>
  A Python \<open>dict\<close> as an association list in insertion order with unique keys:
  \<open>d[k] = v\<close> replaces the value in place when the key is present and appends otherwise.
\<close>

type_synonym ('k, 'v) dict = "('k \<times> 'v) list"

fun dict_set :: "'k \<Rightarrow> 'v \<Rightarrow> ('k, 'v) dict \<Rightarrow> ('k, 'v) dict" where
  "dict_set k v [] = [(k, v)]"
| "dict_set k v ((k', v') # d) =
     (if k' = k then (k, v) # d else (k', v') # dict_set k v d)"

definition dict_get :: "('k, 'v) dict \<Rightarrow> 'k \<Rightarrow> error + 'v" where
  "dict_get d k = (case map_of d k of None \<Rightarrow> Inl KeyError | Some v \<Rightarrow> Inr v)"

section \<open>Spectra jobs (src/renormalizer/spectra/base.py)\<close>

text \<open>
  The attributes \<open>SpectraTdMpsJobBase.__init__\<close> assigns itself. The list \<open>_autocorr\<close> is
  named \<open>autocorr_list\<close> here; the property \<open>autocorr\<close> reads it. The attribute
  \<open>mol_list\<close> is \<open>job_mol_list\<close>, apart from the field of the Holstein model.
\<close>

record ('ml, 'mpo) SpectraFields =
  job_mol_list :: 'ml
  spectratype :: string
  nexciton :: int
  temperature :: Quantity
  h_mpo :: 'mpo
  autocorr_list :: "complex list"

text \<open>
  The whole job: its own attributes and \<open>td_state\<close>, whatever the parent constructor
  \<open>TdMpsJob.__init__\<close> sets up. The parent class and \<open>Mpo\<close> are not among the modelled
  sources, so both are parameters that may fail: \<open>Mpo\<close> builds the Hamiltonian from the
  molecule list and the offset, \<open>TdMpsJob_init\<close> gets the evolution configuration and the
  attributes assigned so far, which it reads and does not reassign.
\<close>

record ('ml, 'mpo, 'td) SpectraTdMpsJobBase = "('ml, 'mpo) SpectraFields" +
  td_state :: 'td

definition SpectraTdMpsJobBase_init ::
  "('ml \<Rightarrow> Quantity \<Rightarrow> error + 'mpo) \<Rightarrow>
   ('cfg \<Rightarrow> ('ml, 'mpo) SpectraFields \<Rightarrow> error + 'td) \<Rightarrow>
   'ml \<Rightarrow> string \<Rightarrow> Quantity \<Rightarrow> 'cfg \<Rightarrow> Quantity \<Rightarrow>
   error + ('ml, 'mpo, 'td) SpectraTdMpsJobBase" where
  "SpectraTdMpsJobBase_init Mpo TdMpsJob_init ml st temp evolve_config offset =
     (if \<not> (st \<in> set [''emi'', ''abs'']) then Inl AssertionError
      else
        let nex = (if st = ''emi'' then 1 else 0) in
        (case Mpo ml offset of
           Inl e \<Rightarrow> Inl e
         | Inr h \<Rightarrow>
             let fields = \<lparr> job_mol_list = ml, spectratype = st, nexciton = nex,
                            temperature = temp, h_mpo = h, autocorr_list = [] \<rparr> in
             (case TdMpsJob_init evolve_config fields of
                Inl e \<Rightarrow> Inl e
              | Inr td \<Rightarrow> Inr (SpectraFields.extend fields
                                  (SpectraTdMpsJobBase.fields td)))))"

text \<open>A bra-ket pair as far as the job reads it: its overlap sample \<open>ft\<close>.\<close>

record braket_pair =
  ft :: complex

definition process_mps ::
  "('ml, 'mpo, 'td) SpectraTdMpsJobBase \<Rightarrow> braket_pair \<Rightarrow> ('ml, 'mpo, 'td) SpectraTdMpsJobBase" where
  "process_mps job p = job \<lparr> autocorr_list := autocorr_list job @ [ft p] \<rparr>"

text \<open>\<open>np.array\<close> of a list of complex scalars holds the same samples in the same order.\<close>

definition autocorr :: "('ml, 'mpo, 'td) SpectraTdMpsJobBase \<Rightarrow> complex list" where
  "autocorr job = autocorr_list job"

text \<open>The per-step callback invoked on \<open>p\<^sub>1, \<dots>, p\<^sub>n\<close> in that order.\<close>

definition process_all ::
  "('ml, 'mpo, 'td) SpectraTdMpsJobBase \<Rightarrow> braket_pair list \<Rightarrow> ('ml, 'mpo, 'td) SpectraTdMpsJobBase" where
  "process_all job ps = foldl process_mps job ps"

section \<open>Models (src/renormalizer/model/model.py)\<close>

subsection \<open>Strings of the DoF names\<close>

text \<open>
  The f-strings \<open>f"e_{imol}"\<close> and \<open>f"v_{nv}"\<close> print a non-negative integer in decimal.
\<close>

definition digit_char :: "nat \<Rightarrow> char" where
  "digit_char d = ''0123456789'' ! d"

fun str_nat :: "nat \<Rightarrow> string" where
  "str_nat n = (if n < 10 then [digit_char n] else str_nat (n div 10) @ [digit_char (n mod 10)])"

declare str_nat.simps [simp del]

definition str_int :: "int \<Rightarrow> string" where
  "str_int i = (if i < 0 then CHR ''-'' # str_nat (nat (- i)) else str_nat (nat i))"

definition e_key :: "nat \<Rightarrow> string" where
  "e_key i = ''e_'' @ str_nat i"

definition v_key :: "nat \<Rightarrow> string" where
  "v_key i = ''v_'' @ str_nat i"

text \<open>\<open>key.split("_")\<close>: the pieces between the separators, at least one piece.\<close>

fun split_on :: "char \<Rightarrow> string \<Rightarrow> string list" where
  "split_on c [] = [[]]"
| "split_on c (x # xs) =
     (if x = c then [] # split_on c xs
      else (case split_on c xs of
              w # ws \<Rightarrow> (x # w) # ws
            | [] \<Rightarrow> [[x]]))"

text \<open>
  \<open>int(s)\<close> on a string of decimal digits with an optional sign; any other string is
  a \<open>ValueError\<close>. (Python also accepts surrounding white space; the names built by the
  models here have none.)
\<close>

definition digit_val :: "char \<Rightarrow> nat option" where
  "digit_val c =
     map_of [(CHR ''0'', 0), (CHR ''1'', 1), (CHR ''2'', 2), (CHR ''3'', 3), (CHR ''4'', 4),
             (CHR ''5'', 5), (CHR ''6'', 6), (CHR ''7'', 7), (CHR ''8'', 8), (CHR ''9'', 9)] c"

fun digits_val :: "nat \<Rightarrow> string \<Rightarrow> nat option" where
  "digits_val acc [] = Some acc"
| "digits_val acc (c # cs) =
     (case digit_val c of None \<Rightarrow> None | Some d \<Rightarrow> digits_val (10 * acc + d) cs)"

definition py_int :: "string \<Rightarrow> error + int" where
  "py_int s =
     (let bad = Inl (ValueError ''invalid literal for int()'') in
      case s of
        [] \<Rightarrow> bad
      | c # cs \<Rightarrow>
          if c = CHR ''-'' \<or> c = CHR ''+'' then
            (if cs = [] then bad
             else case digits_val 0 cs of
                    None \<Rightarrow> bad
                  | Some n \<Rightarrow> Inr (if c = CHR ''-'' then - int n else int n))
          else (case digits_val 0 s of None \<Rightarrow> bad | Some n \<Rightarrow> Inr (int n)))"

subsection \<open>Local bases\<close>

text \<open>
  The basis classes of \<open>renormalizer.utils.basis\<close> that the models construct, by their
  constructor arguments: \<open>BasisSHO omega nbas\<close>, \<open>BasisMultiElectronVac n\<close> for \<open>n\<close>
  electronic DoFs on one site.
\<close>

datatype basis =
    BasisSimpleElectron
  | BasisSHO real nat
  | BasisMultiElectronVac nat
  | BasisHalfSpin

text \<open>
  Modelled from the spec: the attributes \<open>multi_dof\<close> and \<open>nbas\<close> of the basis classes,
  whose module is not among the sources. Only the composite vacuum-plus-occupation basis
  spans several DoFs; the local dimension is two for the two-level and half-spin bases,
  the truncation level for the oscillator, and vacuum plus one state per DoF for the
  composite basis.
\<close>

fun multi_dof :: "basis \<Rightarrow> bool" where
  "multi_dof (BasisMultiElectronVac n) = True"
| "multi_dof b = False"

fun nbas :: "basis \<Rightarrow> nat" where
  "nbas BasisSimpleElectron = 2"
| "nbas (BasisSHO w n) = n"
| "nbas (BasisMultiElectronVac n) = n + 1"
| "nbas BasisHalfSpin = 2"

subsection \<open>The class Model\<close>

text \<open>
  \<open>model\<close> and \<open>dipole\<close> are stored as given, so their types are parameters; \<open>mpos\<close> is
  the cache of compiled operators, from cache keys to operators.
\<close>

record ('m, 'd, 'ck, 'cv) Model =
  order :: "(string, int) dict"
  basis :: "basis list"
  multi_dof_basis :: bool
  model :: 'm
  dipole :: 'd
  mpos :: "'ck \<rightharpoonup> 'cv"
  pbond_list :: "nat list"

text \<open>The two forms in which \<open>order\<close> and \<open>basis\<close> are accepted.\<close>

datatype order_arg = OrderDict "(string, int) dict" | OrderList "string list"

datatype basis_arg = BasisList "basis list" | BasisDict "(string, basis) dict"

text \<open>\<open>for i, o in enumerate(order): self.order[o] = i\<close>\<close>

definition order_of_list :: "string list \<Rightarrow> (string, int) dict" where
  "order_of_list l = fold (\<lambda>(i, o') d. dict_set o' (int i) d) (enumerate 0 l) []"

text \<open>
  \<open>xs[i] = v\<close> on a Python list: a negative index counts from the end, an index out of
  range raises \<open>IndexError\<close>.
\<close>

definition py_list_set :: "'a list \<Rightarrow> int \<Rightarrow> 'a \<Rightarrow> error + 'a list" where
  "py_list_set xs i v =
     (let n = int (length xs) in
      if 0 \<le> i \<and> i < n then Inr (xs[nat i := v])
      else if - n \<le> i \<and> i < 0 then Inr (xs[nat (n + i) := v])
      else Inl IndexError)"

text \<open>\<open>for dof_name, dof_idx in self.order.items(): self.basis[dof_idx] = basis[dof_name]\<close>\<close>

fun fill_basis ::
  "(string, int) dict \<Rightarrow> (string, basis) dict \<Rightarrow> basis option list \<Rightarrow> error + basis option list" where
  "fill_basis [] bd acc = Inr acc"
| "fill_basis ((dof_name, dof_idx) # items) bd acc =
     (case dict_get bd dof_name of
        Inl e \<Rightarrow> Inl e
      | Inr b \<Rightarrow>
          (case py_list_set acc dof_idx (Some b) of
             Inl e \<Rightarrow> Inl e
           | Inr acc' \<Rightarrow> fill_basis items bd acc'))"

text \<open>
  The \<open>for ... else\<close> loop that looks for a multi-DoF basis; a site left \<open>None\<close> has no
  attribute \<open>multi_dof\<close>.
\<close>

fun find_multi_dof :: "basis option list \<Rightarrow> error + bool" where
  "find_multi_dof [] = Inr False"
| "find_multi_dof (None # bs) = Inl AttributeError"
| "find_multi_dof (Some b # bs) = (if multi_dof b then Inr True else find_multi_dof bs)"

text \<open>\<open>[bas.nbas for bas in self.basis]\<close>, together with the basis list itself.\<close>

fun read_basis :: "basis option list \<Rightarrow> error + basis list" where
  "read_basis [] = Inr []"
| "read_basis (None # bs) = Inl AttributeError"
| "read_basis (Some b # bs) = (case read_basis bs of Inl e \<Rightarrow> Inl e | Inr r \<Rightarrow> Inr (b # r))"

text \<open>\<open>self.order\<close>: the dict as given, or the positions in the list.\<close>

definition order_dict :: "order_arg \<Rightarrow> (string, int) dict" where
  "order_dict order_in = (case order_in of OrderDict d \<Rightarrow> d | OrderList l \<Rightarrow> order_of_list l)"

definition Model_init ::
  "order_arg \<Rightarrow> basis_arg \<Rightarrow> 'm \<Rightarrow> 'd \<Rightarrow> error + ('m, 'd, 'ck, 'cv) Model" where
  "Model_init order_in basis_in model_in dipole_in =
     (let self_order = order_dict order_in;
          self_basis =
            (case basis_in of
               BasisList bl \<Rightarrow> Inr (map Some bl)
             | BasisDict bd \<Rightarrow>
                 (let order_values = map snd self_order in
                  if order_values = [] then Inl (ValueError ''min() arg is an empty sequence'')
                  else if Min (set order_values) \<noteq> 0
                          \<or> Max (set order_values) \<noteq> int (card (set order_values)) - 1
                  then Inl (ValueError ''order is not continuous integers from 0'')
                  else fill_basis self_order bd
                         (replicate (nat (Max (set order_values) + 1)) None)))
      in case self_basis of
           Inl e \<Rightarrow> Inl e
         | Inr ob \<Rightarrow>
             (case find_multi_dof ob of
                Inl e \<Rightarrow> Inl e
              | Inr md \<Rightarrow>
                  (case read_basis ob of
                     Inl e \<Rightarrow> Inl e
                   | Inr bl \<Rightarrow>
                       Inr \<lparr> order = self_order, basis = bl, multi_dof_basis = md,
                             model = model_in, dipole = dipole_in, mpos = Map.empty,
                             pbond_list = map nbas bl \<rparr>)))"

definition nsite :: "('m, 'd, 'ck, 'cv, 'z) Model_scheme \<Rightarrow> nat" where
  "nsite m = length (basis m)"

text \<open>
  The property \<open>e_dofs\<close>: the indices of the keys whose first piece is \<open>e\<close>, which must be
  \<open>0, 1, \<dots>\<close> in some order.
\<close>

fun e_indices :: "string list \<Rightarrow> error + int list" where
  "e_indices [] = Inr []"
| "e_indices (key # keys) =
     (if hd (split_on CHR ''_'' key) = ''e'' then
        (case split_on CHR ''_'' key of
           p0 # p1 # ps \<Rightarrow>
             (case py_int p1 of
                Inl e \<Rightarrow> Inl e
              | Inr i \<Rightarrow> (case e_indices keys of Inl e \<Rightarrow> Inl e | Inr r \<Rightarrow> Inr (i # r)))
         | _ \<Rightarrow> Inl IndexError)
      else e_indices keys)"

definition e_dofs :: "('m, 'd, 'ck, 'cv, 'z) Model_scheme \<Rightarrow> error + string list" where
  "e_dofs m =
     (case e_indices (map fst (order m)) of
        Inl e \<Rightarrow> Inl e
      | Inr dofs \<Rightarrow>
          if sort dofs = map int [0..<length dofs] then Inr (map e_key [0..<length dofs])
          else Inl AssertionError)"

definition n_edofs :: "('m, 'd, 'ck, 'cv, 'z) Model_scheme \<Rightarrow> error + nat" where
  "n_edofs m = (case e_dofs m of Inl e \<Rightarrow> Inl e | Inr ds \<Rightarrow> Inr (length ds))"

text \<open>
  \<open>get_mpos\<close>: the builder \<open>fun\<close> is a function of the model. The result is the operator,
  whether the builder was invoked (the branch taken), and the model with its cache.
\<close>

definition get_mpos ::
  "'ck \<Rightarrow> (('m, 'd, 'ck, 'cv) Model \<Rightarrow> 'cv) \<Rightarrow> ('m, 'd, 'ck, 'cv) Model
   \<Rightarrow> 'cv \<times> bool \<times> ('m, 'd, 'ck, 'cv) Model" where
  "get_mpos key fun' m =
     (case mpos m key of
        None \<Rightarrow> (let r = fun' m in (r, True, m \<lparr> mpos := (mpos m)(key \<mapsto> r) \<rparr>))
      | Some r \<Rightarrow> (r, False, m))"

text \<open>
  A Model's lifetime as far as the cache goes: a sequence of \<open>get_mpos\<close> calls, each with
  its key and builder. The log keeps, per call, the key, the returned operator and
  whether the builder was invoked.
\<close>

fun get_mpos_calls ::
  "('ck \<times> (('m, 'd, 'ck, 'cv) Model \<Rightarrow> 'cv)) list \<Rightarrow> ('m, 'd, 'ck, 'cv) Model
   \<Rightarrow> ('ck \<times> 'cv \<times> bool) list \<times> ('m, 'd, 'ck, 'cv) Model" where
  "get_mpos_calls [] m = ([], m)"
| "get_mpos_calls ((k, f) # cs) m =
     (case get_mpos k f m of
        (r, b, m1) \<Rightarrow>
          (case get_mpos_calls cs m1 of (entries, m2) \<Rightarrow> ((k, r, b) # entries, m2)))"

section \<open>The Holstein model\<close>

subsection \<open>Phonons, molecules, operators\<close>

text \<open>
  A phonon as the models read it: the frequencies \<open>omega[0], omega[1]\<close>, the displacements
  \<open>dis[0], dis[1]\<close> and the cubic force constants \<open>force3rd\<close> of the two electronic
  surfaces, the physical dimension, the number \<open>nqboson\<close> of sub-sites and their
  dimension \<open>base\<close>. The constructor derives \<open>base\<close> from \<open>n_phys_dim\<close> and \<open>nqboson\<close>
  with a floating-point root; here \<open>base\<close> is the stored attribute.
\<close>

record Phonon =
  omega :: "real \<times> real"
  dis :: "real \<times> real"
  n_phys_dim :: nat
  force3rd :: "real \<times> real"
  nqboson :: nat
  qbtrunc :: real
  base :: nat

text \<open>
  A molecule as \<open>HolsteinModel\<close> reads it (the attribute \<open>dipole\<close> is \<open>mol_dipole\<close> here).
\<close>

record Mol =
  elocalex :: real
  e0 :: real
  ph_list :: "Phonon list"
  mol_dipole :: real

text \<open>\<open>Op(symbol, qn)\<close>; a term is a tuple of local operators followed by its factor.\<close>

datatype op = Op string int

type_synonym 'c op_term = "op list \<times> 'c"

definition dagger :: string where
  "dagger = [CHR 0x5C] @ ''dagger''"

definition number_op :: op where
  "number_op = Op (''a^'' @ dagger @ '' a'') 0"

definition raising_op :: op where
  "raising_op = Op (''a^'' @ dagger) 1"

definition lowering_op :: op where
  "lowering_op = Op ''a'' (- 1)"

text \<open>
  \<open>np.allclose(a, b)\<close> on scalars with numpy's default tolerances:
  \<open>|a - b| \<le> atol + rtol * |b|\<close> with \<open>atol = 1e-8\<close> and \<open>rtol = 1e-5\<close>.
\<close>

definition np_allclose :: "real \<Rightarrow> real \<Rightarrow> bool" where
  "np_allclose a b = (\<bar>a - b\<bar> \<le> 1 / 10 ^ 8 + (1 / 10 ^ 5) * \<bar>b\<bar>)"

text \<open>\<open>np.allclose(np.array(ph.force3rd), [0.0, 0.0])\<close>\<close>

definition force3rd_allclose_zero :: "Phonon \<Rightarrow> bool" where
  "force3rd_allclose_zero ph = (np_allclose (fst (force3rd ph)) 0 \<and> np_allclose (snd (force3rd ph)) 0)"

subsection \<open>The electronic coupling matrix\<close>

text \<open>
  A two-dimensional array as the list of its rows. The argument \<open>j_matrix\<close> is \<open>None\<close>,
  a \<open>Quantity\<close> or an array.
\<close>

type_synonym matrix = "real list list"

datatype j_arg = JNone | JQuantity Quantity | JArray matrix

text \<open>\<open>m[i, j]\<close> for non-negative indices; out of range is an \<open>IndexError\<close>.\<close>

definition mat_get :: "matrix \<Rightarrow> nat \<Rightarrow> nat \<Rightarrow> error + real" where
  "mat_get m i j =
     (if i < length m \<and> j < length (m ! i) then Inr (m ! i ! j) else Inl IndexError)"

text \<open>\<open>m[0][-1]\<close> and \<open>m[-1][0]\<close>\<close>

definition mat_first_last :: "matrix \<Rightarrow> error + real" where
  "mat_first_last m = (if m = [] \<or> hd m = [] then Inl IndexError else Inr (last (hd m)))"

definition mat_last_first :: "matrix \<Rightarrow> error + real" where
  "mat_last_first m = (if m = [] \<or> last m = [] then Inl IndexError else Inr (hd (last m)))"

text \<open>
  \<open>construct_j_matrix\<close>: \<open>np.ones(mol_num - 1)\<close> fails on a negative length; the sum of the
  two off-diagonals is an array of \<open>mol_num\<close> rows and columns; the periodic boundary
  writes the two corners.
\<close>

definition off_diagonals :: "nat \<Rightarrow> real \<Rightarrow> matrix" where
  "off_diagonals n c =
     map (\<lambda>i. map (\<lambda>k. (if k + 1 = i then c else 0) + (if i + 1 = k then c else 0)) [0..<n]) [0..<n]"

definition construct_j_matrix :: "nat \<Rightarrow> Quantity \<Rightarrow> bool \<Rightarrow> error + matrix" where
  "construct_j_matrix mol_num j_constant periodic =
     (let j_constant_au = as_au j_constant in
      if mol_num = 0 then Inl (ValueError ''negative dimensions are not allowed'')
      else
        let j_matrix = off_diagonals mol_num j_constant_au in
        if periodic then
          (let m1 = j_matrix[mol_num - 1 := (j_matrix ! (mol_num - 1))[0 := j_constant_au]];
               m2 = m1[0 := (m1 ! 0)[mol_num - 1 := j_constant_au]]
           in Inr m2)
        else Inr j_matrix)"

text \<open>The first part of \<open>HolsteinModel.__init__\<close>: the coupling matrix that is stored.\<close>

definition holstein_j_matrix :: "nat \<Rightarrow> j_arg \<Rightarrow> bool \<Rightarrow> error + matrix" where
  "holstein_j_matrix mol_num j_in periodic =
     (case j_in of
        JNone \<Rightarrow>
          if mol_num \<noteq> 1 then Inl AssertionError
          else construct_j_matrix mol_num (Quantity 0) periodic
      | JQuantity q \<Rightarrow> construct_j_matrix mol_num q periodic
      | JArray a \<Rightarrow>
          (case (if periodic then
                   (case mat_first_last a of
                      Inl e \<Rightarrow> Inl e
                    | Inr x \<Rightarrow>
                        if x \<noteq> 0 then
                          (case mat_last_first a of
                             Inl e \<Rightarrow> Inl e
                           | Inr y \<Rightarrow> if y \<noteq> 0 then Inr () else Inl AssertionError)
                        else Inl AssertionError)
                 else Inr ()) of
             Inl e \<Rightarrow> Inl e
           | Inr u \<Rightarrow> if length a = mol_num then Inr a else Inl AssertionError))"

subsection \<open>The site layout of the schemes\<close>

text \<open>
  The local variables of the layout loops: \<open>order\<close>, \<open>basis\<close>, \<open>mapping\<close>, \<open>idx\<close>, \<open>nv\<close>
  and, for scheme 4, \<open>n_left_ph\<close>.
\<close>

record layout =
  lo_order :: "(string, int) dict"
  lo_basis :: "basis list"
  lo_mapping :: "(nat \<times> nat, string) dict"
  lo_idx :: nat
  lo_nv :: nat
  lo_n_left_ph :: nat

definition layout0 :: layout where
  "layout0 = \<lparr> lo_order = [], lo_basis = [], lo_mapping = [], lo_idx = 0, lo_nv = 0,
               lo_n_left_ph = 0 \<rparr>"

text \<open>\<open>ba.BasisSHO(ph.omega[0], ph.n_phys_dim)\<close>\<close>

definition sho :: "Phonon \<Rightarrow> basis" where
  "sho ph = BasisSHO (fst (omega ph)) (n_phys_dim ph)"

text \<open>Schemes below 4: the body of the loop over the phonons of molecule \<open>imol\<close>.\<close>

definition ph_step_123 :: "nat \<Rightarrow> nat \<times> Phonon \<Rightarrow> layout \<Rightarrow> layout" where
  "ph_step_123 imol = (\<lambda>(iph, ph) s.
     s \<lparr> lo_order := dict_set (v_key (lo_nv s)) (int (lo_idx s)) (lo_order s),
         lo_mapping := dict_set (imol, iph) (v_key (lo_nv s)) (lo_mapping s),
         lo_basis := lo_basis s @ [sho ph],
         lo_idx := lo_idx s + 1,
         lo_nv := lo_nv s + 1 \<rparr>)"

definition mol_step_123 :: "nat \<times> Mol \<Rightarrow> layout \<Rightarrow> layout" where
  "mol_step_123 = (\<lambda>(imol, mol) s.
     fold (ph_step_123 imol) (enumerate 0 (ph_list mol))
       (s \<lparr> lo_order := dict_set (e_key imol) (int (lo_idx s)) (lo_order s),
            lo_basis := lo_basis s @ [BasisSimpleElectron],
            lo_idx := lo_idx s + 1 \<rparr>))"

text \<open>Scheme 4: the phonons of the molecules left of the middle come first.\<close>

definition ph_step_4 :: "nat \<Rightarrow> nat \<Rightarrow> nat \<times> Phonon \<Rightarrow> layout \<Rightarrow> layout" where
  "ph_step_4 n_left_mol imol = (\<lambda>(iph, ph) s.
     (if imol < n_left_mol
      then s \<lparr> lo_order := dict_set (v_key (lo_nv s)) (int (lo_idx s)) (lo_order s),
               lo_n_left_ph := lo_n_left_ph s + 1 \<rparr>
      else s \<lparr> lo_order := dict_set (v_key (lo_nv s)) (int (lo_idx s + 1)) (lo_order s) \<rparr>)
     \<lparr> lo_basis := lo_basis s @ [sho ph],
       lo_mapping := dict_set (imol, iph) (v_key (lo_nv s)) (lo_mapping s),
       lo_nv := lo_nv s + 1,
       lo_idx := lo_idx s + 1 \<rparr>)"

definition mol_step_4 :: "nat \<Rightarrow> nat \<times> Mol \<Rightarrow> layout \<Rightarrow> layout" where
  "mol_step_4 n_left_mol = (\<lambda>(imol, mol) s.
     fold (ph_step_4 n_left_mol imol) (enumerate 0 (ph_list mol)) s)"

text \<open>\<open>basis.insert(i, x)\<close> for a non-negative index.\<close>

definition list_insert :: "nat \<Rightarrow> 'a \<Rightarrow> 'a list \<Rightarrow> 'a list" where
  "list_insert i x xs = take i xs @ [x] @ drop i xs"

definition layout_4 :: "Mol list \<Rightarrow> layout" where
  "layout_4 mols =
     (let mol_num = length mols;
          n_left_mol = mol_num div 2;
          s = fold (mol_step_4 n_left_mol) (enumerate 0 mols) layout0;
          s1 = fold (\<lambda>imol t. t \<lparr> lo_order := dict_set (e_key imol) (int (lo_n_left_ph s)) (lo_order t) \<rparr>)
                 [0..<mol_num] s
      in s1 \<lparr> lo_basis := list_insert (lo_n_left_ph s) (BasisMultiElectronVac mol_num) (lo_basis s1) \<rparr>)"

text \<open>
  The layout's electronic midpoint as the specification words it: the total number of phonon
  modes of the first \<open>mol_num div 2\<close> molecules.
\<close>

definition n_left_ph_of :: "Mol list \<Rightarrow> nat" where
  "n_left_ph_of mols = sum_list (map (\<lambda>mol. length (ph_list mol)) (take (length mols div 2) mols))"

text \<open>The branch on the scheme, with its error.\<close>

definition holstein_layout :: "Mol list \<Rightarrow> int \<Rightarrow> error + layout" where
  "holstein_layout mols scheme =
     (if scheme < 4 then Inr (fold mol_step_123 (enumerate 0 mols) layout0)
      else if scheme = 4 then Inr (layout_4 mols)
      else Inl (ValueError (''invalid model.scheme: '' @ str_int scheme)))"

subsection \<open>The terms of the Hamiltonian\<close>

type_synonym holstein_terms = "(string list, real op_term list) dict"

text \<open>The electronic terms: the double loop over \<open>imol\<close> and \<open>jmol\<close>.\<close>

definition electronic_step :: "Mol list \<Rightarrow> matrix \<Rightarrow> nat \<times> nat \<Rightarrow> holstein_terms \<Rightarrow> error + holstein_terms" where
  "electronic_step mols jm = (\<lambda>(imol, jmol) model.
     if imol = jmol then
       Inr (dict_set [e_key imol]
              [([number_op], elocalex (mols ! imol) + e0 (mols ! imol))] model)
     else
       (case mat_get jm imol jmol of
          Inl e \<Rightarrow> Inl e
        | Inr c \<Rightarrow> Inr (dict_set [e_key imol, e_key jmol] [([raising_op, lowering_op], c)] model)))"

text \<open>A loop whose body may raise: the first error ends it.\<close>

fun fold_err :: "('a \<Rightarrow> 's \<Rightarrow> error + 's) \<Rightarrow> 'a list \<Rightarrow> 's \<Rightarrow> error + 's" where
  "fold_err f [] s = Inr s"
| "fold_err f (x # xs) s = (case f x s of Inl e \<Rightarrow> Inl e | Inr s' \<Rightarrow> fold_err f xs s')"

definition electronic_terms :: "Mol list \<Rightarrow> matrix \<Rightarrow> holstein_terms \<Rightarrow> error + holstein_terms" where
  "electronic_terms mols jm terms =
     fold_err (electronic_step mols jm)
       (concat (map (\<lambda>imol. map (\<lambda>jmol. (imol, jmol)) [0..<length mols]) [0..<length mols])) terms"

text \<open>The pairs \<open>((imol, iph), ph)\<close> that the two nested \<open>enumerate\<close> loops visit, in order.\<close>

definition mol_phonons :: "Mol list \<Rightarrow> ((nat \<times> nat) \<times> Phonon) list" where
  "mol_phonons mols =
     concat (map (\<lambda>(imol, mol). map (\<lambda>(iph, ph). ((imol, iph), ph)) (enumerate 0 (ph_list mol)))
               (enumerate 0 mols))"

text \<open>The vibration part, with its assertion on the cubic force constants.\<close>

definition vibration_step ::
  "(nat \<times> nat, string) dict \<Rightarrow> (nat \<times> nat) \<times> Phonon \<Rightarrow> holstein_terms \<Rightarrow> error + holstein_terms" where
  "vibration_step mapping = (\<lambda>(ij, ph) model.
     if \<not> force3rd_allclose_zero ph then Inl AssertionError
     else
       (case dict_get mapping ij of
          Inl e \<Rightarrow> Inl e
        | Inr vk \<Rightarrow>
            Inr (dict_set [vk]
                   [([Op ''p^2'' 0], 0.5), ([Op ''x^2'' 0], 0.5 * (fst (omega ph)) ^ 2)] model)))"

text \<open>The vibration potential part.\<close>

definition potential_step ::
  "(nat \<times> nat, string) dict \<Rightarrow> (nat \<times> nat) \<times> Phonon \<Rightarrow> holstein_terms \<Rightarrow> error + holstein_terms" where
  "potential_step mapping = (\<lambda>(ij, ph) model.
     (case dict_get mapping ij of
        Inl e \<Rightarrow> Inl e
      | Inr vk \<Rightarrow>
          if np_allclose (fst (omega ph)) (snd (omega ph)) then
            Inr (dict_set [e_key (fst ij), vk]
                   [([number_op, Op ''x'' 0], (- ((snd (omega ph)) ^ 2)) * snd (dis ph))] model)
          else
            Inr (dict_set [e_key (fst ij), vk]
                   [([number_op, Op ''x^2'' 0], 0.5 * ((snd (omega ph)) ^ 2 - (fst (omega ph)) ^ 2)),
                    ([number_op, Op ''x'' 0], (- ((snd (omega ph)) ^ 2)) * snd (dis ph))] model)))"

subsection \<open>The class HolsteinModel\<close>

text \<open>
  The attributes added to those of \<open>Model\<close>; \<open>self.map\<close> is \<open>map_molph\<close> here.
\<close>

record ('ck, 'cv) HolsteinModel =
  "(holstein_terms, (string list, real) dict, 'ck, 'cv) Model" +
  mol_list :: "Mol list"
  j_matrix :: matrix
  scheme :: int
  periodic :: bool
  map_molph :: "(nat \<times> nat, string) dict"
  mol_num :: nat

definition holstein_dipole :: "Mol list \<Rightarrow> (string list, real) dict" where
  "holstein_dipole mols =
     fold (\<lambda>(imol, mol) d. dict_set [e_key imol] (mol_dipole mol) d) (enumerate 0 mols) []"

definition HolsteinModel_init ::
  "Mol list \<Rightarrow> j_arg \<Rightarrow> int \<Rightarrow> bool \<Rightarrow> error + ('ck, 'cv) HolsteinModel" where
  "HolsteinModel_init mols j_in scheme_in periodic_in =
     (case holstein_j_matrix (length mols) j_in periodic_in of
        Inl e \<Rightarrow> Inl e
      | Inr jm \<Rightarrow>
     (case holstein_layout mols scheme_in of
        Inl e \<Rightarrow> Inl e
      | Inr lay \<Rightarrow>
     (case electronic_terms mols jm [] of
        Inl e \<Rightarrow> Inl e
      | Inr model1 \<Rightarrow>
     (case fold_err (vibration_step (lo_mapping lay)) (mol_phonons mols) model1 of
        Inl e \<Rightarrow> Inl e
      | Inr model2 \<Rightarrow>
     (case fold_err (potential_step (lo_mapping lay)) (mol_phonons mols) model2 of
        Inl e \<Rightarrow> Inl e
      | Inr model3 \<Rightarrow>
     (case Model_init (OrderDict (lo_order lay)) (BasisList (lo_basis lay)) model3
             (holstein_dipole mols) of
        Inl e \<Rightarrow> Inl e
      | Inr m \<Rightarrow>
     (case n_edofs m of
        Inl e \<Rightarrow> Inl e
      | Inr n \<Rightarrow>
          Inr (Model.extend m
                 (HolsteinModel.fields mols jm scheme_in periodic_in (lo_mapping lay) n)))))))))"

text \<open>
  \<open>set.pop()\<close> on the list of the distinct elements: an empty set raises \<open>KeyError\<close>;
  of a set with one element, that element is returned.
\<close>

fun set_pop :: "'a list \<Rightarrow> error + 'a" where
  "set_pop [] = Inl KeyError"
| "set_pop (x # xs) = Inr x"

text \<open>\<open>ravel\<close>: the entries of the array, row after row.\<close>

definition ravel :: "matrix \<Rightarrow> real list" where
  "ravel m = concat m"

text \<open>The property \<open>j_constant\<close>; \<open>j_set\<close> is kept as the list of the distinct entries.\<close>

definition j_constant :: "('ck, 'cv, 'z) HolsteinModel_scheme \<Rightarrow> error + real" where
  "j_constant hm =
     (let j_set = remdups (ravel (j_matrix hm)) in
      if length j_set = 0 then set_pop j_set
      else if length j_set = 2 \<and> 0 \<in> set j_set then set_pop (removeAll 0 j_set)
      else Inl (ValueError ''J is not constant''))"

section \<open>The vibronic model\<close>

text \<open>
  The input table of \<open>VibronicModel\<close>: the outer key is \<open>"I"\<close> or a tuple of electronic
  DoFs; an entry of the inner dict is \<open>"J"\<close> with a factor, or a tuple of vibrational
  DoFs with a list of terms. The re-keyed table \<open>new_model\<close> has entries of the same
  kind, with unique keys, in insertion order.
\<close>

datatype ekey = I | E "string list"

datatype subkey = J | K "string list"

datatype 'c sub_entry = JEntry 'c | VEntry "string list" "'c op_term list"

fun entry_key :: "'c sub_entry \<Rightarrow> subkey" where
  "entry_key (JEntry c) = J"
| "entry_key (VEntry k ts) = K k"

text \<open>\<open>new_model[kk] = vv\<close>: the entry replaces the one with its key, or is added last.\<close>

fun nm_assign :: "'c sub_entry \<Rightarrow> 'c sub_entry list \<Rightarrow> 'c sub_entry list" where
  "nm_assign e [] = [e]"
| "nm_assign e (x # xs) = (if entry_key x = entry_key e then e # xs else x # nm_assign e xs)"

text \<open>
  \<open>new_model[new_key].append(new_value)\<close> on the \<open>defaultdict(list)\<close>: a missing key
  starts from the empty list.
\<close>

fun nm_append :: "string list \<Rightarrow> 'c op_term \<Rightarrow> 'c sub_entry list \<Rightarrow> 'c sub_entry list" where
  "nm_append k t [] = [VEntry k [t]]"
| "nm_append k t (VEntry k' ts # xs) =
     (if k' = k then VEntry k' (ts @ [t]) # xs else VEntry k' ts # nm_append k t xs)"
| "nm_append k t (JEntry c # xs) = JEntry c # nm_append k t xs"

text \<open>The body of the inner loop, for one entry \<open>kk, vv\<close> under the outer key \<open>e_k\<close>.\<close>

definition vibronic_entry ::
  "ekey \<Rightarrow> 'c sub_entry \<Rightarrow> 'c sub_entry list \<Rightarrow> error + 'c sub_entry list" where
  "vibronic_entry e_k entry new_model =
     (case e_k of
        I \<Rightarrow> Inr (nm_assign entry new_model)
      | E ks \<Rightarrow>
          if length ks \<noteq> 2 then Inl AssertionError
          else
            let (new_e_k, e_op) =
                  (if ks ! 0 = ks ! 1 then ([ks ! 0], [number_op])
                   else (ks, [raising_op, lowering_op]))
            in (case entry of
                  JEntry vv \<Rightarrow> Inr (nm_assign (VEntry new_e_k [(e_op, vv)]) new_model)
                | VEntry kk vv \<Rightarrow>
                    Inr (fold (\<lambda>term nm. nm_append (new_e_k @ kk) (e_op @ fst term, snd term) nm)
                           vv new_model)))"

definition VibronicModel_new_model ::
  "(ekey \<times> 'c sub_entry list) list \<Rightarrow> error + 'c sub_entry list" where
  "VibronicModel_new_model table =
     fold_err (\<lambda>(e_k, entry) nm. vibronic_entry e_k entry nm)
       (concat (map (\<lambda>(e_k, e_v). map (\<lambda>entry. (e_k, entry)) e_v) table)) []"


text \<open>
  The re-keying as the specification words it, to be compared with the loop above:
  under \<open>"I"\<close> an entry passes through; under a diagonal key \<open>(e_i, e_i)\<close> the key
  becomes \<open>(e_i,)\<close> followed by the vibrational sub-key and every term gets the number
  operator in front;
  under an off-diagonal key \<open>(e_i, e_j)\<close> the key keeps both DoFs, followed by the
  sub-key, and every term gets the raising and the lowering operator in front; the
  vibrational operators and the factor of a term stay as they are.
\<close>

fun translate_entry :: "ekey \<Rightarrow> 'c sub_entry \<Rightarrow> 'c sub_entry" where
  "translate_entry (E [ei, ej]) (JEntry c) =
     (if ei = ej then VEntry [ei] [([number_op], c)]
      else VEntry [ei, ej] [([raising_op, lowering_op], c)])"
| "translate_entry (E [ei, ej]) (VEntry kk ts) =
     (if ei = ej then VEntry (ei # kk) (map (\<lambda>(ops, c). (number_op # ops, c)) ts)
      else VEntry (ei # ej # kk) (map (\<lambda>(ops, c). (raising_op # lowering_op # ops, c)) ts))"
| "translate_entry e_k entry = entry"



text \<open>
  Where a term of the re-keyed table comes from: an entry of the input table whose
  translation has the same key and holds the term.
\<close>

definition term_from_table ::
  "(ekey \<times> 'c sub_entry list) list \<Rightarrow> string list \<Rightarrow> 'c op_term \<Rightarrow> bool" where
  "term_from_table table k t =
     (\<exists>e_k e_v entry ts. (e_k, e_v) \<in> set table \<and> entry \<in> set e_v
        \<and> translate_entry e_k entry = VEntry k ts \<and> t \<in> set ts)"

text \<open>
  A re-keyed table all of whose content comes from the input table: a \<open>"J"\<close> entry is an
  entry under \<open>"I"\<close>, and every term under a tuple key is a translated term.
\<close>

definition rekeyed_from :: "(ekey \<times> 'c sub_entry list) list \<Rightarrow> 'c sub_entry list \<Rightarrow> bool" where
  "rekeyed_from table nm \<longleftrightarrow>
     (\<forall>c. JEntry c \<in> set nm \<longrightarrow> (\<exists>e_v. (I, e_v) \<in> set table \<and> JEntry c \<in> set e_v))
     \<and> (\<forall>k ts t. VEntry k ts \<in> set nm \<and> t \<in> set ts \<longrightarrow> term_from_table table k t)"

section \<open>Ground-state tensors of a phonon (src/ephMPS/model/phonon.py)\<close>

text \<open>A tensor of rank three as nested lists; \<open>np.zeros((a, b, c))\<close>.\<close>

type_synonym tensor3 = "real list list list"

definition np_zeros3 :: "nat \<Rightarrow> nat \<Rightarrow> nat \<Rightarrow> tensor3" where
  "np_zeros3 a b c = replicate a (replicate b (replicate c 0))"

definition has_shape3 :: "tensor3 \<Rightarrow> nat \<Rightarrow> nat \<Rightarrow> nat \<Rightarrow> bool" where
  "has_shape3 t a b c =
     (length t = a \<and> list_all (\<lambda>rows. length rows = b \<and> list_all (\<lambda>cell. length cell = c) rows) t)"

definition sq_norm :: "tensor3 \<Rightarrow> real" where
  "sq_norm t = sum_list (map (\<lambda>x. x ^ 2) (concat (concat t)))"

text \<open>
  One tensor of \<open>gs_mps\<close>: \<open>ms[0, :, 0] = v\<close> writes every physical index, \<open>ms[0, 1, 0] = 1.0\<close>
  writes index 1 and is out of bounds when \<open>base\<close> is below 2.
\<close>

definition gs_mps_site :: "('z) Phonon_scheme \<Rightarrow> bool \<Rightarrow> error + tensor3" where
  "gs_mps_site ph max_entangled =
     (let ms = np_zeros3 1 (base ph) 1 in
      if max_entangled then
        Inr (ms[0 := map (\<lambda>row. row[0 := 1 / sqrt (real (base ph))]) (ms ! 0)])
      else if 1 < base ph then
        Inr (ms[0 := (ms ! 0)[1 := (ms ! 0 ! 1)[0 := 1]]])
      else Inl IndexError)"

text \<open>The generator, read to its end: the tensors in order, or the first error.\<close>

fun collect :: "(error + 'a) list \<Rightarrow> error + 'a list" where
  "collect [] = Inr []"
| "collect (Inl e # xs) = Inl e"
| "collect (Inr x # xs) = (case collect xs of Inl e \<Rightarrow> Inl e | Inr r \<Rightarrow> Inr (x # r))"

definition gs_mps :: "('z) Phonon_scheme \<Rightarrow> bool \<Rightarrow> error + tensor3 list" where
  "gs_mps ph max_entangled =
     collect (map (\<lambda>iboson. gs_mps_site ph max_entangled) [0..<nqboson ph])"

section \<open>Verified properties\<close>

subsection \<open>Properties of the spectra job\<close>

lemma autocorr_list_process_all:
  "autocorr_list (process_all job ps) = autocorr_list job @ map ft ps"
  unfolding process_all_def
  by (induction ps arbitrary: job) (simp_all add: process_mps_def)

lemma init_fields:
  assumes "SpectraTdMpsJobBase_init Mpo TdI ml st temp cfg off = Inr job"
  shows "st \<in> {''emi'', ''abs''} \<and> spectratype job = st
         \<and> nexciton job = (if st = ''emi'' then 1 else 0)"
  using assms
  by (auto simp: SpectraTdMpsJobBase_init_def Let_def SpectraFields.extend_def
      SpectraTdMpsJobBase.fields_def split: if_splits sum.splits)

text \<open>
  Claim C8. Starting from the empty sample list that the constructor assigns, after the
  per-step callback \<open>process_mps\<close> has run on the pairs \<open>p\<^sub>1, \<dots>, p\<^sub>n\<close> in that order,
  \<open>autocorr\<close> has exactly \<open>n\<close> elements and its \<open>i\<close>-th element is the \<open>ft\<close> value of the
  \<open>i\<close>-th pair: nothing is dropped, duplicated or reordered.
\<close>

theorem autocorr_one_sample_per_step:
  assumes "autocorr_list job = []"
  shows "length (autocorr (process_all job ps)) = length ps
         \<and> (\<forall>i < length ps. autocorr (process_all job ps) ! i = ft (ps ! i))
         \<and> autocorr (process_all job ps) = map ft ps"
  using assms by (simp add: autocorr_list_process_all autocorr_def)

theorem autocorr_one_sample_per_step_witness:
  "autocorr (process_all
      \<lparr> job_mol_list = (), spectratype = ''abs'', nexciton = 0, temperature = Quantity 0,
        h_mpo = (), autocorr_list = [], td_state = () \<rparr>
      [\<lparr> ft = 1 \<rparr>, \<lparr> ft = \<i> \<rparr>, \<lparr> ft = 1 \<rparr>]) = [1, \<i>, 1]"
  using autocorr_one_sample_per_step
    [of "\<lparr> job_mol_list = (), spectratype = ''abs'', nexciton = 0, temperature = Quantity 0,
          h_mpo = (), autocorr_list = [], td_state = () \<rparr>"
        "[\<lparr> ft = 1 \<rparr>, \<lparr> ft = \<i> \<rparr>, \<lparr> ft = 1 \<rparr>]"]
  by simp


text \<open>
  Claim C7. The spectral type is accepted if and only if it is \<open>"emi"\<close> or \<open>"abs"\<close>: any
  other value fails the constructor's assertion; with \<open>"emi"\<close> or \<open>"abs"\<close> the constructor
  succeeds whenever its collaborators \<open>Mpo\<close> and \<open>TdMpsJob.__init__\<close> do; and every job
  that was constructed has \<open>nexciton = 1\<close> for \<open>"emi"\<close> and \<open>nexciton = 0\<close> for \<open>"abs"\<close>.
\<close>

theorem spectratype_emi_or_abs:
  "(st \<notin> {''emi'', ''abs''} \<longrightarrow>
      SpectraTdMpsJobBase_init Mpo TdI ml st temp cfg off = Inl AssertionError)
   \<and> (st \<in> {''emi'', ''abs''} \<longrightarrow>
        (\<forall>h td. Mpo ml off = Inr h \<and>
                 TdI cfg \<lparr> job_mol_list = ml, spectratype = st,
                           nexciton = (if st = ''emi'' then 1 else 0), temperature = temp,
                           h_mpo = h, autocorr_list = [] \<rparr> = Inr td \<longrightarrow>
           (\<exists>job. SpectraTdMpsJobBase_init Mpo TdI ml st temp cfg off = Inr job)))
   \<and> (\<forall>job. SpectraTdMpsJobBase_init Mpo TdI ml st temp cfg off = Inr job \<longrightarrow>
          st \<in> {''emi'', ''abs''} \<and> spectratype job = st
          \<and> (st = ''emi'' \<longrightarrow> nexciton job = 1) \<and> (st = ''abs'' \<longrightarrow> nexciton job = 0))"
proof (intro conjI allI impI)
  assume "st \<notin> {''emi'', ''abs''}"
  then show "SpectraTdMpsJobBase_init Mpo TdI ml st temp cfg off = Inl AssertionError"
    by (simp add: SpectraTdMpsJobBase_init_def)
next
  fix h td
  assume "st \<in> {''emi'', ''abs''}"
    and "Mpo ml off = Inr h \<and>
         TdI cfg \<lparr> job_mol_list = ml, spectratype = st,
                   nexciton = (if st = ''emi'' then 1 else 0), temperature = temp,
                   h_mpo = h, autocorr_list = [] \<rparr> = Inr td"
  then show "\<exists>job. SpectraTdMpsJobBase_init Mpo TdI ml st temp cfg off = Inr job"
    by (auto simp: SpectraTdMpsJobBase_init_def Let_def)
next
  fix job
  assume a: "SpectraTdMpsJobBase_init Mpo TdI ml st temp cfg off = Inr job"
  from init_fields [OF a] show "st \<in> {''emi'', ''abs''}" by simp
  from init_fields [OF a] show "spectratype job = st" by simp
  { assume "st = ''emi''"
    with init_fields [OF a] show "nexciton job = 1" by simp }
  { assume "st = ''abs''"
    with init_fields [OF a] show "nexciton job = 0" by simp }
qed

theorem spectratype_emi_or_abs_witness:
  "SpectraTdMpsJobBase_init (\<lambda>ml off. Inr ()) (\<lambda>cfg fields. Inr ()) () ''fluo''
      (Quantity 0) () (Quantity 0)
     = (Inl AssertionError :: error + (unit, unit, unit) SpectraTdMpsJobBase)
   \<and> (\<exists>job :: (unit, unit, unit) SpectraTdMpsJobBase.
        SpectraTdMpsJobBase_init (\<lambda>ml off. Inr ()) (\<lambda>cfg fields. Inr ()) () ''emi''
          (Quantity 0) () (Quantity 0) = Inr job \<and> nexciton job = 1)
   \<and> (\<exists>job :: (unit, unit, unit) SpectraTdMpsJobBase.
        SpectraTdMpsJobBase_init (\<lambda>ml off. Inr ()) (\<lambda>cfg fields. Inr ()) () ''abs''
          (Quantity 0) () (Quantity 0) = Inr job \<and> nexciton job = 0)"
proof -
  let ?init = "\<lambda>st. SpectraTdMpsJobBase_init (\<lambda>ml off. Inr ()) (\<lambda>cfg fields. Inr ()) () st
      (Quantity 0) () (Quantity 0) :: error + (unit, unit, unit) SpectraTdMpsJobBase"
  have bad: "?init ''fluo'' = Inl AssertionError"
    using spectratype_emi_or_abs
      [of "''fluo''" "\<lambda>ml off. Inr ()" "\<lambda>cfg fields. Inr ()" "()" "Quantity 0" "()" "Quantity 0"]
    by simp
  have emi: "\<exists>job. ?init ''emi'' = Inr job \<and> nexciton job = 1"
    using spectratype_emi_or_abs
      [of "''emi''" "\<lambda>ml off. Inr ()" "\<lambda>cfg fields. Inr ()" "()" "Quantity 0" "()" "Quantity 0"]
    by auto
  have abs: "\<exists>job. ?init ''abs'' = Inr job \<and> nexciton job = 0"
    using spectratype_emi_or_abs
      [of "''abs''" "\<lambda>ml off. Inr ()" "\<lambda>cfg fields. Inr ()" "()" "Quantity 0" "()" "Quantity 0"]
    by auto
  from bad emi abs show ?thesis by blast
qed

subsection \<open>The operator cache\<close>




lemma get_mpos_calls_length: "get_mpos_calls cs m = (entries, m') \<Longrightarrow> length entries = length cs"
  by (induction cs arbitrary: m entries m') (auto split: prod.splits)

lemma get_mpos_calls_keys:
  "get_mpos_calls cs m = (entries, m') \<Longrightarrow> map fst entries = map fst cs"
  by (induction cs arbitrary: m entries m') (auto split: prod.splits)





subsection \<open>Ground-state tensors of a phonon\<close>

lemma collect_replicate_Inr: "collect (replicate n (Inr x)) = Inr (replicate n x)"
  by (induction n) simp_all

lemma collect_replicate_Inl: "0 < n \<Longrightarrow> collect (replicate n (Inl e)) = Inl e"
  by (cases n) simp_all

lemma gs_mps_replicate:
  "gs_mps ph me = collect (replicate (nqboson ph) (gs_mps_site ph me))"
  by (simp add: gs_mps_def map_replicate_const)

lemma gs_mps_site_entangled:
  "gs_mps_site ph True = Inr [replicate (base ph) [1 / sqrt (real (base ph))]]"
  by (simp add: gs_mps_site_def np_zeros3_def Let_def)

lemma gs_mps_site_ground:
  "1 < base ph \<Longrightarrow> gs_mps_site ph False = Inr [(replicate (base ph) [0])[1 := [1]]]"
  by (simp add: gs_mps_site_def np_zeros3_def Let_def)

lemma gs_mps_site_out_of_bounds:
  "base ph < 2 \<Longrightarrow> gs_mps_site ph False = Inl IndexError"
  by (simp add: gs_mps_site_def np_zeros3_def Let_def)

lemma sum_list_replicate_real: "sum_list (replicate n (c::real)) = real n * c"
  by (induction n) (simp_all add: algebra_simps)

lemma concat_replicate_single: "concat (replicate b [x]) = replicate b x"
  by (induction b) simp_all

lemma sq_norm_entangled:
  assumes "1 \<le> b"
  shows "sq_norm [replicate b [1 / sqrt (real b)]] = 1"
proof -
  have "sq_norm [replicate b [1 / sqrt (real b)]] = real b * (1 / sqrt (real b))\<^sup>2"
    by (simp add: sq_norm_def sum_list_replicate_real concat_replicate_single)
  also have "\<dots> = 1" using assms by (simp add: power_divide)
  finally show ?thesis .
qed

text \<open>
  Claim C10 as stated fails when \<open>base\<close> is 0: the maximally entangled tensor then has no
  entry at all, and its squared norm is 0, not 1.
\<close>

theorem gs_mps_base_zero_norm:
  "\<exists>t. gs_mps \<lparr> omega = (1, 1), dis = (0, 0), n_phys_dim = 0, force3rd = (0, 0), nqboson = 1,
                qbtrunc = 0, base = 0 \<rparr> True = Inr [t]
       \<and> has_shape3 t 1 0 1 \<and> sq_norm t = 0"
  by (simp add: gs_mps_def gs_mps_site_def np_zeros3_def sq_norm_def has_shape3_def)

text \<open>
  Claim C10, amended. \<open>gs_mps\<close> with \<open>max_entangled = True\<close> yields exactly \<open>nqboson\<close> tensors
  of shape \<open>(1, base, 1)\<close> whose entries are all \<open>1 / sqrt base\<close>, of unit squared norm
  when \<open>base \<ge> 1\<close>. With \<open>max_entangled = False\<close> and \<open>base \<ge> 2\<close> it yields \<open>nqboson\<close> tensors
  of shape \<open>(1, base, 1)\<close> whose only non-zero entry is the 1 at physical index 1; with
  \<open>base < 2\<close> the write at index 1 is out of bounds as soon as a tensor is asked for
  (\<open>nqboson \<ge> 1\<close>, as for every phonon the constructor builds).
\<close>

theorem gs_mps_tensors:
  "(\<exists>ts. gs_mps ph True = Inr ts \<and> length ts = nqboson ph
        \<and> (\<forall>t \<in> set ts. has_shape3 t 1 (base ph) 1
              \<and> (\<forall>x \<in> set (concat (concat t)). x = 1 / sqrt (real (base ph)))
              \<and> (1 \<le> base ph \<longrightarrow> sq_norm t = 1)))
   \<and> (2 \<le> base ph \<longrightarrow>
        (\<exists>ts. gs_mps ph False = Inr ts \<and> length ts = nqboson ph
           \<and> (\<forall>t \<in> set ts. has_shape3 t 1 (base ph) 1
                 \<and> (\<forall>i < base ph. t ! 0 ! i ! 0 = (if i = 1 then 1 else 0)))))
   \<and> (base ph < 2 \<and> 0 < nqboson ph \<longrightarrow> gs_mps ph False = Inl IndexError)"
proof (intro conjI impI)
  let ?t = "[replicate (base ph) [1 / sqrt (real (base ph))]]"
  have shape: "has_shape3 ?t 1 (base ph) 1"
    by (simp add: has_shape3_def list_all_iff)
  have entries: "\<forall>x \<in> set (concat (concat ?t)). x = 1 / sqrt (real (base ph))"
    by (simp add: concat_replicate_single)
  have norm: "1 \<le> base ph \<longrightarrow> sq_norm ?t = 1"
    by (simp add: sq_norm_entangled)
  have "gs_mps ph True = Inr (replicate (nqboson ph) ?t)"
    by (simp add: gs_mps_replicate gs_mps_site_entangled collect_replicate_Inr)
  with shape entries norm
  show "\<exists>ts. gs_mps ph True = Inr ts \<and> length ts = nqboson ph
        \<and> (\<forall>t \<in> set ts. has_shape3 t 1 (base ph) 1
              \<and> (\<forall>x \<in> set (concat (concat t)). x = 1 / sqrt (real (base ph)))
              \<and> (1 \<le> base ph \<longrightarrow> sq_norm t = 1))"
    by (intro exI [of _ "replicate (nqboson ph) ?t"]) auto
next
  assume b: "2 \<le> base ph"
  let ?t = "[(replicate (base ph) [0::real])[1 := [1]]]"
  have shape: "has_shape3 ?t 1 (base ph) 1"
    by (auto simp: has_shape3_def list_all_iff dest!: set_update_subset_insert [THEN subsetD])
  have entries: "\<forall>i < base ph. ?t ! 0 ! i ! 0 = (if i = 1 then 1 else 0)"
    using b by (simp add: nth_list_update)
  have "gs_mps ph False = Inr (replicate (nqboson ph) ?t)"
    using b by (simp add: gs_mps_replicate gs_mps_site_ground collect_replicate_Inr)
  with shape entries
  show "\<exists>ts. gs_mps ph False = Inr ts \<and> length ts = nqboson ph
           \<and> (\<forall>t \<in> set ts. has_shape3 t 1 (base ph) 1
                 \<and> (\<forall>i < base ph. t ! 0 ! i ! 0 = (if i = 1 then 1 else 0)))"
    by (intro exI [of _ "replicate (nqboson ph) ?t"]) auto
next
  assume "base ph < 2 \<and> 0 < nqboson ph"
  then show "gs_mps ph False = Inl IndexError"
    by (simp add: gs_mps_replicate gs_mps_site_out_of_bounds collect_replicate_Inl)
qed

theorem gs_mps_tensors_witness:
  "gs_mps \<lparr> omega = (1, 1), dis = (0, 1), n_phys_dim = 16, force3rd = (0, 0), nqboson = 2,
            qbtrunc = 0, base = 4 \<rparr> True
     = Inr [[[[1 / 2], [1 / 2], [1 / 2], [1 / 2]]], [[[1 / 2], [1 / 2], [1 / 2], [1 / 2]]]]
   \<and> sq_norm [[[1 / 2], [1 / 2], [1 / 2], [1 / 2]]] = 1
   \<and> gs_mps \<lparr> omega = (1, 1), dis = (0, 1), n_phys_dim = 16, force3rd = (0, 0), nqboson = 2,
              qbtrunc = 0, base = 4 \<rparr> False
     = Inr [[[[0], [1], [0], [0]]], [[[0], [1], [0], [0]]]]
   \<and> gs_mps \<lparr> omega = (1, 1), dis = (0, 1), n_phys_dim = 1, force3rd = (0, 0), nqboson = 1,
              qbtrunc = 0, base = 1 \<rparr> False
     = Inl IndexError"
proof -
  let ?ph = "\<lparr> omega = (1, 1), dis = (0, 1), n_phys_dim = 16, force3rd = (0, 0), nqboson = 2,
              qbtrunc = 0, base = 4 \<rparr>"
  let ?ph1 = "\<lparr> omega = (1, 1), dis = (0, 1), n_phys_dim = 1, force3rd = (0, 0), nqboson = 1,
               qbtrunc = 0, base = 1 \<rparr>"
  let ?t = "[[[1 / 2], [1 / 2], [1 / 2], [1 / 2 :: real]]]"
  have e: "gs_mps ?ph True = Inr [?t, ?t]"
    by (simp add: gs_mps_replicate gs_mps_site_entangled collect_replicate_Inr eval_nat_numeral)
  from gs_mps_tensors [of ?ph] obtain ts where
    ts: "gs_mps ?ph True = Inr ts" "\<forall>t \<in> set ts. 1 \<le> base ?ph \<longrightarrow> sq_norm t = 1"
    by blast
  from ts e have n: "sq_norm ?t = 1" by auto
  from gs_mps_tensors [of ?ph] obtain us where
    us: "gs_mps ?ph False = Inr us" by auto
  have g: "gs_mps ?ph False = Inr [[[[0], [1], [0], [0]]], [[[0], [1], [0], [0]]]]"
    using us by (simp add: gs_mps_replicate gs_mps_site_ground collect_replicate_Inr eval_nat_numeral)
  have o: "gs_mps ?ph1 False = Inl IndexError"
    using gs_mps_tensors [of ?ph1] by simp
  from e n g o show ?thesis by simp
qed

subsection \<open>The coupling constant\<close>

lemma j_constant_no_entries:
  "ravel (j_matrix hm) = [] \<Longrightarrow> j_constant hm = Inl KeyError"
  by (simp add: j_constant_def)

lemma j_constant_two_values:
  assumes "set (ravel (j_matrix hm)) = {0, v}" and "v \<noteq> 0"
  shows "j_constant hm = Inr v"
proof -
  let ?s = "remdups (ravel (j_matrix hm))"
  have d: "distinct ?s" and s: "set ?s = {0, v}" using assms by simp_all
  have "length ?s = card {0, v}" using distinct_card [OF d] s by simp
  then have l: "length ?s = 2" using assms(2) by simp
  then obtain a b where ab: "?s = [a, b]"
    by (auto simp: length_Suc_conv numeral_2_eq_2)
  with d s have "(a = 0 \<and> b = v) \<or> (a = v \<and> b = 0)"
    by (auto simp: doubleton_eq_iff)
  then have "set_pop (removeAll 0 ?s) = Inr v" using ab assms(2) by auto
  moreover have "0 \<in> set ?s" using s by simp
  moreover have "ravel (j_matrix hm) \<noteq> []" using assms(1) by auto
  ultimately show ?thesis using l by (simp add: j_constant_def Let_def)
qed

lemma j_constant_otherwise:
  assumes "ravel (j_matrix hm) \<noteq> []"
    and "\<not> (\<exists>v. v \<noteq> 0 \<and> set (ravel (j_matrix hm)) = {0, v})"
  shows "j_constant hm = Inl (ValueError ''J is not constant'')"
proof -
  let ?s = "remdups (ravel (j_matrix hm))"
  have ne: "length ?s \<noteq> 0" using assms(1) by simp
  have "\<not> (length ?s = 2 \<and> 0 \<in> set ?s)"
  proof
    assume a: "length ?s = 2 \<and> 0 \<in> set ?s"
    then obtain x y where xy: "?s = [x, y]"
      by (auto simp: length_Suc_conv numeral_2_eq_2)
    have d: "distinct ?s" by simp
    with xy have "x \<noteq> y" by simp
    from xy have s: "set (ravel (j_matrix hm)) = {x, y}"
      by (metis list.simps(15) empty_set set_remdups)
    from a xy have "x = 0 \<or> y = 0" by auto
    with s \<open>x \<noteq> y\<close> have "\<exists>v. v \<noteq> 0 \<and> set (ravel (j_matrix hm)) = {0, v}"
      by (metis insert_commute)
    with assms(2) show False by simp
  qed
  with ne show ?thesis by (auto simp: j_constant_def Let_def)
qed

text \<open>
  Claim C2 at the empty coupling matrix: a Holstein model without molecules, with a
  coupling matrix of no rows, is constructed, and its \<open>j_constant\<close> pops from the empty
  set, a \<open>KeyError\<close> and not the \<open>ValueError\<close> of the claim.
\<close>

theorem j_constant_empty_matrix_KeyError:
  "\<exists>hm :: (unit, unit) HolsteinModel.
     HolsteinModel_init [] (JArray []) 2 False = Inr hm \<and> j_constant hm = Inl KeyError"
  by (simp add: HolsteinModel_init_def holstein_j_matrix_def holstein_layout_def layout0_def
      electronic_terms_def mol_phonons_def Model_init_def order_dict_def holstein_dipole_def n_edofs_def
      e_dofs_def j_constant_def ravel_def Model.extend_def HolsteinModel.fields_def)

subsection \<open>The consistency check of Model\<close>

lemma contiguous_from_min_max:
  fixes S :: "int set"
  assumes "finite S" and "S \<noteq> {}" and "Min S = 0" and "Max S = int (card S) - 1"
  shows "S = {0..<int (card S)}"
proof -
  have "S \<subseteq> {0..<int (card S)}"
  proof
    fix x assume x: "x \<in> S"
    then have "Min S \<le> x" and "x \<le> Max S" using assms(1) by simp_all
    with assms(3,4) show "x \<in> {0..<int (card S)}" by simp
  qed
  moreover have "card {0..<int (card S)} = card S" by simp
  ultimately show ?thesis
    by (metis card_subset_eq finite_atLeastLessThan_int)
qed

lemma Model_init_dict_basis_cases:
  "Model_init order_in (BasisDict bd) model_in dipole_in = Inr m \<Longrightarrow>
   set (map snd (order_dict order_in)) = {0..<int (card (set (map snd (order_dict order_in))))}"
proof -
  assume a: "Model_init order_in (BasisDict bd) model_in dipole_in = Inr m"
  let ?vs = "map snd (order_dict order_in)"
  have ne: "?vs \<noteq> []" using a by (auto simp: Model_init_def Let_def split: if_splits)
  have chk: "Min (set ?vs) = 0 \<and> Max (set ?vs) = int (card (set ?vs)) - 1"
    using a ne by (auto simp: Model_init_def Let_def split: if_splits)
  from ne have "set ?vs \<noteq> {}" by simp
  with chk show ?thesis using contiguous_from_min_max [of "set ?vs"] by simp
qed

text \<open>
  The branch for a basis in dict form checks the values of \<open>order\<close>, given in list form
  or in dict form: values that do not form a contiguous integer range \<open>0..n-1\<close> are
  refused with a \<open>ValueError\<close>.
\<close>

lemma Model_init_dict_basis_rejects:
  assumes "\<not> (\<exists>n. set (map snd (order_dict order_in)) = {0..<int n})"
  shows "\<exists>msg. (Model_init order_in (BasisDict bd) model_in dipole_in
                  :: error + ('m, 'd, 'ck, 'cv) Model) = Inl (ValueError msg)"
proof -
  let ?vs = "map snd (order_dict order_in)"
  show ?thesis
  proof (cases "?vs = []")
    case True
    then show ?thesis by (simp add: Model_init_def Let_def)
  next
    case False
    have "Min (set ?vs) \<noteq> 0 \<or> Max (set ?vs) \<noteq> int (card (set ?vs)) - 1"
    proof (rule ccontr)
      assume "\<not> (Min (set ?vs) \<noteq> 0 \<or> Max (set ?vs) \<noteq> int (card (set ?vs)) - 1)"
      then have "set ?vs = {0..<int (card (set ?vs))}"
        using False contiguous_from_min_max [of "set ?vs"] by simp
      with assms show False by blast
    qed
    with False show ?thesis by (auto simp: Model_init_def Let_def)
  qed
qed

lemma Model_init_dict_basis_rejects_examples:
  "(Model_init (OrderDict [(''e_0'', 0), (''v_0'', 2)])
      (BasisDict [(''e_0'', BasisSimpleElectron), (''v_0'', BasisSHO 1 4)]) () ()
      :: error + (unit, unit, unit, unit) Model)
     = Inl (ValueError ''order is not continuous integers from 0'')
   \<and> (Model_init (OrderList [''v_0'', ''v_0''])
      (BasisDict [(''v_0'', BasisSHO 1 4)]) () ()
      :: error + (unit, unit, unit, unit) Model)
     = Inl (ValueError ''order is not continuous integers from 0'')"
proof -
  have h1: "\<not> (\<exists>n. set (map snd (order_dict (OrderDict [(''e_0'', 0), (''v_0'', 2)]))) = {0..<int n})"
  proof
    assume "\<exists>n. set (map snd (order_dict (OrderDict [(''e_0'', 0), (''v_0'', 2)]))) = {0..<int n}"
    then obtain n where n: "{0, 2::int} = {0..<int n}" by (auto simp: order_dict_def)
    then have "(2::int) \<in> {0..<int n}" by blast
    then have "(1::int) \<in> {0..<int n}" by simp
    then have "(1::int) \<in> {0, 2::int}" by (simp only: n)
    then show False by simp
  qed
  have o2: "order_dict (OrderList [''v_0'', ''v_0'']) = [(''v_0'', 1)]"
    by (simp add: order_dict_def order_of_list_def enumerate_eq_zip upt_rec)
  have h2: "\<not> (\<exists>n. set (map snd (order_dict (OrderList [''v_0'', ''v_0'']))) = {0..<int n})"
  proof
    assume "\<exists>n. set (map snd (order_dict (OrderList [''v_0'', ''v_0'']))) = {0..<int n}"
    then obtain n where n: "{1::int} = {0..<int n}" by (auto simp: o2)
    then have "(1::int) \<in> {0..<int n}" by blast
    then have "(0::int) \<in> {0..<int n}" by simp
    then have "(0::int) \<in> {1::int}" by (simp only: n)
    then show False by simp
  qed
  have "\<exists>msg. (Model_init (OrderDict [(''e_0'', 0), (''v_0'', 2)])
      (BasisDict [(''e_0'', BasisSimpleElectron), (''v_0'', BasisSHO 1 4)]) () ()
      :: error + (unit, unit, unit, unit) Model) = Inl (ValueError msg)"
    by (rule Model_init_dict_basis_rejects [OF h1])
  then obtain msg1 where
    m1: "(Model_init (OrderDict [(''e_0'', 0), (''v_0'', 2)])
      (BasisDict [(''e_0'', BasisSimpleElectron), (''v_0'', BasisSHO 1 4)]) () ()
      :: error + (unit, unit, unit, unit) Model) = Inl (ValueError msg1)" by blast
  have "\<exists>msg. (Model_init (OrderList [''v_0'', ''v_0''])
      (BasisDict [(''v_0'', BasisSHO 1 4)]) () ()
      :: error + (unit, unit, unit, unit) Model) = Inl (ValueError msg)"
    by (rule Model_init_dict_basis_rejects [OF h2])
  then obtain msg2 where
    m2: "(Model_init (OrderList [''v_0'', ''v_0''])
      (BasisDict [(''v_0'', BasisSHO 1 4)]) () ()
      :: error + (unit, unit, unit, unit) Model) = Inl (ValueError msg2)" by blast
  have "msg1 = ''order is not continuous integers from 0''"
    using m1 by (simp add: Model_init_def order_dict_def Let_def split: if_splits)
  moreover have "msg2 = ''order is not continuous integers from 0''"
    using m2 by (simp add: Model_init_def o2 Let_def split: if_splits)
  ultimately show ?thesis using m1 m2 by simp
qed

text \<open>
  Claim C4 at the order \<open>{"e_0": 5}\<close> with \<open>basis\<close> given as a list: the values of \<open>order\<close>
  are not a range from 0, yet the model is constructed and keeps that order, while the
  branch for a basis in dict form refuses the same order.
\<close>

theorem Model_init_list_basis_unchecked:
  "(\<exists>m :: (unit, unit, unit, unit) Model.
      Model_init (OrderDict [(''e_0'', 5)]) (BasisList [BasisSimpleElectron]) () () = Inr m
      \<and> order m = [(''e_0'', 5)])
   \<and> \<not> (\<exists>n. set (map snd (order_dict (OrderDict [(''e_0'', 5)]))) = {0..<int n})
   \<and> (Model_init (OrderDict [(''e_0'', 5)]) (BasisDict [(''e_0'', BasisSimpleElectron)]) () ()
        :: error + (unit, unit, unit, unit) Model)
       = Inl (ValueError ''order is not continuous integers from 0'')"
proof -
  have "\<not> (\<exists>n. {5::int} = {0..<int n})"
  proof
    assume "\<exists>n. {5::int} = {0..<int n}"
    then obtain n where n: "{5::int} = {0..<int n}" ..
    then have "(5::int) \<in> {0..<int n}" by blast
    then have "(0::int) \<in> {0..<int n}" by simp
    then have "(0::int) \<in> {5::int}" by (simp only: n)
    then show False by simp
  qed
  then show ?thesis by (simp add: Model_init_def order_dict_def)
qed

theorem Model_init_list_basis_unchecked_witness:
  "\<exists>m :: (unit, unit, unit, unit) Model.
      Model_init (OrderDict [(''e_0'', 5)]) (BasisList [BasisSimpleElectron]) () () = Inr m
      \<and> order m = [(''e_0'', 5)]"
  using Model_init_list_basis_unchecked by blast

subsection \<open>The Holstein model\<close>

lemmas holstein_eval =
  HolsteinModel_init_def holstein_j_matrix_def construct_j_matrix_def off_diagonals_def
  holstein_layout_def layout0_def layout_4_def mol_step_123_def ph_step_123_def
  mol_step_4_def ph_step_4_def sho_def list_insert_def
  electronic_terms_def electronic_step_def mat_get_def mol_phonons_def
  vibration_step_def potential_step_def force3rd_allclose_zero_def np_allclose_def
  Model_init_def order_dict_def holstein_dipole_def n_edofs_def e_dofs_def
  dict_get_def e_key_def v_key_def str_nat.simps digit_char_def py_int_def digit_val_def
  Model.extend_def HolsteinModel.fields_def enumerate_eq_zip upt_rec Let_def











subsection \<open>The layout of scheme 4\<close>

lemma map_of_dict_set: "map_of (dict_set k v d) = (map_of d)(k \<mapsto> v)"
  by (induction d) (auto simp: fun_eq_iff)

lemma dict_get_Inr_iff: "dict_get d k = Inr v \<longleftrightarrow> map_of d k = Some v"
  by (simp add: dict_get_def split: option.splits)

lemma read_basis_map_Some: "read_basis (map Some bl) = Inr bl"
  by (induction bl) simp_all

lemma find_multi_dof_map_Some: "find_multi_dof (map Some bl) = Inr (list_ex multi_dof bl)"
  by (induction bl) simp_all

lemma Model_init_dict_list:
  assumes "Model_init (OrderDict d) (BasisList bl) mo di = Inr m"
  shows "order m = d \<and> basis m = bl \<and> model m = mo \<and> dipole m = di"
  using assms
  by (auto simp: Model_init_def order_dict_def read_basis_map_Some find_multi_dof_map_Some)

lemma HolsteinModel_init_layout:
  assumes "HolsteinModel_init mols j_in scheme_in periodic_in = Inr hm"
  shows "\<exists>lay. holstein_layout mols scheme_in = Inr lay
           \<and> order hm = lo_order lay \<and> basis hm = lo_basis lay \<and> map_molph hm = lo_mapping lay
           \<and> mol_list hm = mols \<and> scheme hm = scheme_in"
  using assms
  by (auto simp: HolsteinModel_init_def Model.extend_def HolsteinModel.fields_def
      split: sum.splits dest!: Model_init_dict_list)

lemma ph_loop_4:
  "lo_basis (fold (ph_step_4 nl imol) (enumerate k phs) s) = lo_basis s @ map sho phs
   \<and> lo_n_left_ph (fold (ph_step_4 nl imol) (enumerate k phs) s)
       = lo_n_left_ph s + (if imol < nl then length phs else 0)"
  by (induction phs arbitrary: k s) (simp_all add: ph_step_4_def)

lemma mol_loop_4:
  "lo_basis (fold (mol_step_4 nl) (enumerate k mols) s)
     = lo_basis s @ concat (map (\<lambda>mol. map sho (ph_list mol)) mols)
   \<and> lo_n_left_ph (fold (mol_step_4 nl) (enumerate k mols) s)
       = lo_n_left_ph s + sum_list (map (\<lambda>mol. length (ph_list mol)) (take (nl - k) mols))"
proof (induction mols arbitrary: k s)
  case Nil
  then show ?case by simp
next
  case (Cons mol mols)
  have t: "take (nl - k) (mol # mols) = mol # take (nl - Suc k) mols" if "k < nl"
  proof -
    from that have "nl - k = Suc (nl - Suc k)" by simp
    then show ?thesis by (simp only: take_Suc_Cons)
  qed
  show ?case
    using Cons [of "Suc k" "fold (ph_step_4 nl k) (enumerate 0 (ph_list mol)) s"]
      ph_loop_4 [of nl k 0 "ph_list mol" s]
    by (auto simp: mol_step_4_def t)
qed

lemma e_loop_order:
  "map_of (lo_order (fold (\<lambda>imol t. t \<lparr> lo_order := dict_set (ek imol) v (lo_order t) \<rparr>) ns s)) key
     = (if key \<in> ek ` set ns then Some v else map_of (lo_order s) key)"
  by (induction ns arbitrary: s) (auto simp: map_of_dict_set)

lemma e_loop_basis:
  "lo_basis (fold (\<lambda>imol t. t \<lparr> lo_order := dict_set (ek imol) v (lo_order t) \<rparr>) ns s) = lo_basis s"
  by (induction ns arbitrary: s) simp_all

lemma sum_list_take_le:
  fixes f :: "'a \<Rightarrow> nat"
  shows "sum_list (map f (take n xs)) \<le> sum_list (map f xs)"
proof -
  have "sum_list (map f xs) = sum_list (map f (take n xs)) + sum_list (map f (drop n xs))"
    by (metis append_take_drop_id map_append sum_list.append)
  then show ?thesis by simp
qed

lemma length_concat_map_map:
  "length (concat (map (\<lambda>mol. map g (ph_list mol)) mols))
     = sum_list (map (\<lambda>mol. length (ph_list mol)) mols)"
  by (induction mols) simp_all

lemma layout_4_order:
  "i < length mols \<Longrightarrow> map_of (lo_order (layout_4 mols)) (e_key i) = Some (int (n_left_ph_of mols))"
  using mol_loop_4 [of "length mols div 2" 0 mols layout0]
  by (simp add: layout_4_def Let_def e_loop_order n_left_ph_of_def layout0_def)

lemma layout_4_basis:
  "lo_basis (layout_4 mols)
     = list_insert (n_left_ph_of mols) (BasisMultiElectronVac (length mols))
         (concat (map (\<lambda>mol. map sho (ph_list mol)) mols))"
  using mol_loop_4 [of "length mols div 2" 0 mols layout0]
  by (simp add: layout_4_def Let_def e_loop_basis n_left_ph_of_def layout0_def)

lemma n_left_ph_le:
  "n_left_ph_of mols \<le> length (concat (map (\<lambda>mol. map sho (ph_list mol)) mols))"
  by (simp add: n_left_ph_of_def length_concat_map_map sum_list_take_le)

lemma list_insert_nth:
  assumes "n \<le> length xs"
  shows "length (list_insert n x xs) = Suc (length xs)"
    and "list_insert n x xs ! n = x"
    and "i < Suc (length xs) \<Longrightarrow> i \<noteq> n \<Longrightarrow> list_insert n x xs ! i \<in> set xs"
proof -
  show "length (list_insert n x xs) = Suc (length xs)"
    using assms by (simp add: list_insert_def)
  show "list_insert n x xs ! n = x"
    using assms by (simp add: list_insert_def nth_append)
  assume i: "i < Suc (length xs)" "i \<noteq> n"
  show "list_insert n x xs ! i \<in> set xs"
  proof (cases "i < n")
    case True
    then have "list_insert n x xs ! i = xs ! i"
      using assms by (simp add: list_insert_def nth_append)
    with True assms show ?thesis by simp
  next
    case False
    with i have gt: "n < i" by simp
    then have "list_insert n x xs ! i = xs ! (i - 1)"
      using assms i by (simp add: list_insert_def nth_append nth_Cons')
    with gt i show ?thesis by simp
  qed
qed

text \<open>
  Claim C5. In every Holstein model built with scheme 4, all electronic DoFs
  \<open>e_0, \<dots>, e_{mol_num-1}\<close> are mapped by \<open>order\<close> to one and the same site; its index is
  the total number of phonon modes of the first \<open>mol_num div 2\<close> molecules; the basis at
  that site is the multi-electron-vacuum basis over \<open>mol_num\<close> electronic DoFs, and it is
  the only one: every other site carries a harmonic-oscillator basis.
\<close>

theorem scheme_4_electronic_site:
  assumes "HolsteinModel_init mols j_in 4 periodic_in = Inr hm"
  shows "(\<forall>i < length mols. dict_get (order hm) (e_key i) = Inr (int (n_left_ph_of mols)))
         \<and> n_left_ph_of mols < length (basis hm)
         \<and> basis hm ! n_left_ph_of mols = BasisMultiElectronVac (length mols)
         \<and> (\<forall>i < length (basis hm). i \<noteq> n_left_ph_of mols
               \<longrightarrow> (\<exists>w n. basis hm ! i = BasisSHO w n))"
proof -
  let ?phs = "concat (map (\<lambda>mol. map sho (ph_list mol)) mols)"
  let ?n = "n_left_ph_of mols"
  from HolsteinModel_init_layout [OF assms]
  have o: "order hm = lo_order (layout_4 mols)" and b: "basis hm = lo_basis (layout_4 mols)"
    by (auto simp: holstein_layout_def)
  have le: "?n \<le> length ?phs" by (rule n_left_ph_le)
  have bb: "basis hm = list_insert ?n (BasisMultiElectronVac (length mols)) ?phs"
    using b by (simp add: layout_4_basis)
  have 1: "\<forall>i < length mols. dict_get (order hm) (e_key i) = Inr (int ?n)"
    by (simp add: o dict_get_Inr_iff layout_4_order)
  have len: "length (basis hm) = Suc (length ?phs)"
    using list_insert_nth(1) [OF le] bb by simp
  have 2: "?n < length (basis hm)"
    using le len by simp
  have 3: "basis hm ! ?n = BasisMultiElectronVac (length mols)"
    using list_insert_nth(2) [OF le] bb by simp
  have 4: "\<forall>i < length (basis hm). i \<noteq> ?n \<longrightarrow> (\<exists>w n. basis hm ! i = BasisSHO w n)"
  proof (intro allI impI)
    fix i assume "i < length (basis hm)" and "i \<noteq> ?n"
    then have "basis hm ! i \<in> set ?phs"
      using list_insert_nth(3) [OF le, of i] len bb by simp
    then show "\<exists>w n. basis hm ! i = BasisSHO w n" by (auto simp: sho_def)
  qed
  from 1 2 3 4 show ?thesis by blast
qed

theorem scheme_4_electronic_site_witness:
  "\<exists>hm :: (unit, unit) HolsteinModel.
     HolsteinModel_init
       [\<lparr> elocalex = 1, e0 = 0,
          ph_list = [\<lparr> omega = (1, 1), dis = (0, 1), n_phys_dim = 4, force3rd = (0, 0),
                       nqboson = 1, qbtrunc = 0, base = 4 \<rparr>,
                     \<lparr> omega = (2, 2), dis = (0, 1), n_phys_dim = 3, force3rd = (0, 0),
                       nqboson = 1, qbtrunc = 0, base = 3 \<rparr>],
          mol_dipole = 1 \<rparr>,
        \<lparr> elocalex = 1, e0 = 0,
          ph_list = [\<lparr> omega = (1, 1), dis = (0, 1), n_phys_dim = 4, force3rd = (0, 0),
                       nqboson = 1, qbtrunc = 0, base = 4 \<rparr>],
          mol_dipole = 1 \<rparr>] (JQuantity (Quantity 2)) 4 False = Inr hm
     \<and> dict_get (order hm) ''e_0'' = Inr 2 \<and> dict_get (order hm) ''e_1'' = Inr 2
     \<and> basis hm ! 2 = BasisMultiElectronVac 2"
proof -
  let ?ph = "\<lparr> omega = (1, 1), dis = (0, 1), n_phys_dim = 4, force3rd = (0, 0),
                       nqboson = 1, qbtrunc = 0, base = 4 \<rparr>"
  let ?ph2 = "\<lparr> omega = (2, 2), dis = (0, 1), n_phys_dim = 3, force3rd = (0, 0),
                       nqboson = 1, qbtrunc = 0, base = 3 \<rparr>"
  let ?mols = "[\<lparr> elocalex = 1, e0 = 0, ph_list = [?ph, ?ph2], mol_dipole = 1 \<rparr>,
                \<lparr> elocalex = 1, e0 = 0, ph_list = [?ph], mol_dipole = 1 \<rparr>]"
  have "\<not> isl (HolsteinModel_init ?mols (JQuantity (Quantity 2)) 4 False
                  :: error + (unit, unit) HolsteinModel)"
    by code_simp
  then obtain hm :: "(unit, unit) HolsteinModel"
    where hm: "HolsteinModel_init ?mols (JQuantity (Quantity 2)) 4 False = Inr hm"
    by (cases "HolsteinModel_init ?mols (JQuantity (Quantity 2)) 4 False
                 :: error + (unit, unit) HolsteinModel") auto
  have n: "n_left_ph_of ?mols = 2" by code_simp
  have k: "e_key 0 = ''e_0''" "e_key (Suc 0) = ''e_1''" by code_simp+
  note t = scheme_4_electronic_site [OF hm, unfolded n]
  from t have all: "\<forall>i < length ?mols. dict_get (order hm) (e_key i) = Inr (int 2)"
    by (rule conjunct1)
  have e0: "dict_get (order hm) ''e_0'' = Inr 2"
    using all [rule_format, of 0] by (simp add: k)
  have e1: "dict_get (order hm) ''e_1'' = Inr 2"
    using all [rule_format, of 1] by (simp add: k)
  from t have "basis hm ! 2 = BasisMultiElectronVac (length ?mols)"
    by (rule conjunct2 [THEN conjunct2, THEN conjunct1])
  then have b: "basis hm ! 2 = BasisMultiElectronVac 2" by simp
  from hm e0 e1 b show ?thesis by blast
qed


subsection \<open>The scheme selector\<close>

lemma HolsteinModel_scheme_above_4:
  assumes "4 < scheme_in"
  shows "\<exists>e. (HolsteinModel_init mols j_in scheme_in periodic_in
                :: error + ('ck, 'cv) HolsteinModel) = Inl e"
    and "holstein_j_matrix (length mols) j_in periodic_in = Inr jm \<Longrightarrow>
         (HolsteinModel_init mols j_in scheme_in periodic_in :: error + ('ck, 'cv) HolsteinModel)
           = Inl (ValueError (''invalid model.scheme: '' @ str_int scheme_in))"
  using assms
  by (auto simp: HolsteinModel_init_def holstein_layout_def split: sum.splits)

lemma holstein_layout_below_4:
  "scheme_in < 4 \<Longrightarrow> holstein_layout mols scheme_in = holstein_layout mols 1"
  by (simp add: holstein_layout_def)

text \<open>
  Claim C3 at the scheme 0, which is not one of 1, 2, 3, 4: the test \<open>scheme < 4\<close> lets
  it pass, and the model is built with the layout of the schemes 1 to 3.
\<close>

theorem HolsteinModel_scheme_0_accepted:
  "\<exists>hm :: (unit, unit) HolsteinModel.
     HolsteinModel_init
       [\<lparr> elocalex = 1, e0 = 0,
          ph_list = [\<lparr> omega = (1, 1), dis = (0, 1), n_phys_dim = 4, force3rd = (0, 0),
                       nqboson = 1, qbtrunc = 0, base = 4 \<rparr>],
          mol_dipole = 1 \<rparr>] JNone 0 False = Inr hm
     \<and> scheme hm = 0
     \<and> order hm = [(''e_0'', 0), (''v_0'', 1)]
     \<and> basis hm = [BasisSimpleElectron, BasisSHO 1 4]"
  by (simp add: holstein_eval)

subsection \<open>The re-keying of the vibronic model\<close>


lemma nm_assign_subset: "set (nm_assign e nm) \<subseteq> insert e (set nm)"
  by (induction nm) auto









lemma nm_append_terms:
  "VEntry k' ts' \<in> set (nm_append k t nm) \<Longrightarrow> t' \<in> set ts' \<Longrightarrow>
   (\<exists>ts. VEntry k' ts \<in> set nm \<and> t' \<in> set ts) \<or> (k' = k \<and> t' = t)"
  by (induction k t nm rule: nm_append.induct) (auto split: if_splits)

lemma nm_append_J: "JEntry c \<in> set (nm_append k t nm) \<Longrightarrow> JEntry c \<in> set nm"
  by (induction k t nm rule: nm_append.induct) (auto split: if_splits)

lemma fold_nm_append_terms:
  "VEntry k' ts' \<in> set (fold (\<lambda>term nm'. nm_append k (pre term) nm') vv nm) \<Longrightarrow> t' \<in> set ts' \<Longrightarrow>
   (\<exists>ts. VEntry k' ts \<in> set nm \<and> t' \<in> set ts) \<or> (k' = k \<and> t' \<in> pre ` set vv)"
proof (induction vv arbitrary: nm)
  case Nil
  then show ?case by auto
next
  case (Cons v vv)
  from Cons.IH [of "nm_append k (pre v) nm"] Cons.prems
  have "(\<exists>ts. VEntry k' ts \<in> set (nm_append k (pre v) nm) \<and> t' \<in> set ts)
        \<or> (k' = k \<and> t' \<in> pre ` set vv)" by simp
  then show ?case
  proof
    assume "\<exists>ts. VEntry k' ts \<in> set (nm_append k (pre v) nm) \<and> t' \<in> set ts"
    then obtain ts where "VEntry k' ts \<in> set (nm_append k (pre v) nm)" "t' \<in> set ts" by blast
    from nm_append_terms [OF this] show ?thesis by auto
  next
    assume "k' = k \<and> t' \<in> pre ` set vv"
    then show ?thesis by auto
  qed
qed

lemma fold_nm_append_J:
  "JEntry c \<in> set (fold (\<lambda>term nm'. nm_append k (pre term) nm') vv nm) \<Longrightarrow> JEntry c \<in> set nm"
  by (induction vv arbitrary: nm) (auto dest: nm_append_J)

lemma rekeyed_fromD:
  "rekeyed_from table nm \<Longrightarrow> VEntry k ts \<in> set nm \<Longrightarrow> t \<in> set ts \<Longrightarrow> term_from_table table k t"
  unfolding rekeyed_from_def by blast

lemma rekeyed_fromJ:
  "rekeyed_from table nm \<Longrightarrow> JEntry c \<in> set nm \<Longrightarrow> \<exists>e_v. (I, e_v) \<in> set table \<and> JEntry c \<in> set e_v"
  unfolding rekeyed_from_def by blast

lemma vibronic_entry_rekeyed:
  assumes "(e_k, e_v) \<in> set table" and "entry \<in> set e_v"
    and "rekeyed_from table nm" and "vibronic_entry e_k entry nm = Inr nm'"
  shows "rekeyed_from table nm'"
proof (cases e_k)
  case I
  with assms(4) have nm': "nm' = nm_assign entry nm" by (simp add: vibronic_entry_def)
  have sub: "set nm' \<subseteq> insert entry (set nm)" unfolding nm' by (rule nm_assign_subset)
  have tr: "translate_entry e_k entry = entry" using I by simp
  show ?thesis
    unfolding rekeyed_from_def
  proof (intro conjI allI impI)
    fix c assume "JEntry c \<in> set nm'"
    with sub have "JEntry c = entry \<or> JEntry c \<in> set nm" by auto
    then show "\<exists>e_v. (I, e_v) \<in> set table \<and> JEntry c \<in> set e_v"
      using assms(1,2) I rekeyed_fromJ [OF assms(3)] by auto
  next
    fix k ts t assume a: "VEntry k ts \<in> set nm' \<and> t \<in> set ts"
    with sub have "VEntry k ts = entry \<or> VEntry k ts \<in> set nm" by auto
    then show "term_from_table table k t"
    proof
      assume "VEntry k ts = entry"
      with tr a assms(1,2) show ?thesis unfolding term_from_table_def by metis
    next
      assume "VEntry k ts \<in> set nm"
      with a rekeyed_fromD [OF assms(3)] show ?thesis by blast
    qed
  qed
next
  case (E ks)
  with assms(4) have "length ks = 2" by (auto simp: vibronic_entry_def split: if_splits)
  then obtain ei ej where ks: "ks = [ei, ej]"
    by (auto simp: length_Suc_conv numeral_2_eq_2)
  show ?thesis
  proof (cases entry)
    case (JEntry c)
    let ?e = "translate_entry e_k entry"
    from assms(4) E ks JEntry have nm': "nm' = nm_assign ?e nm"
      by (auto simp: vibronic_entry_def)
    have sub: "set nm' \<subseteq> insert ?e (set nm)" unfolding nm' by (rule nm_assign_subset)
    obtain k0 ts0 where e: "?e = VEntry k0 ts0" using E ks JEntry by (cases "ei = ej") auto
    show ?thesis
      unfolding rekeyed_from_def
    proof (intro conjI allI impI)
      fix c' assume "JEntry c' \<in> set nm'"
      with sub e have "JEntry c' \<in> set nm" by auto
      then show "\<exists>e_v. (I, e_v) \<in> set table \<and> JEntry c' \<in> set e_v"
        by (rule rekeyed_fromJ [OF assms(3)])
    next
      fix k ts t assume a: "VEntry k ts \<in> set nm' \<and> t \<in> set ts"
      with sub have "VEntry k ts = ?e \<or> VEntry k ts \<in> set nm" by auto
      then show "term_from_table table k t"
      proof
        assume "VEntry k ts = ?e"
        with a assms(1,2) show ?thesis unfolding term_from_table_def by metis
      next
        assume "VEntry k ts \<in> set nm"
        with a rekeyed_fromD [OF assms(3)] show ?thesis by blast
      qed
    qed
  next
    case (VEntry kk vv)
    let ?k = "(if ei = ej then [ei] else [ei, ej]) @ kk"
    let ?pre = "\<lambda>term :: 'a op_term.
        ((if ei = ej then [number_op] else [raising_op, lowering_op]) @ fst term, snd term)"
    from assms(4) E ks VEntry
    have nm': "nm' = fold (\<lambda>term nm'. nm_append ?k (?pre term) nm') vv nm"
      by (auto simp: vibronic_entry_def)
    have tr: "translate_entry e_k entry = VEntry ?k (map ?pre vv)"
      using E ks VEntry by (simp add: case_prod_unfold)
    show ?thesis
      unfolding rekeyed_from_def
    proof (intro conjI allI impI)
      fix c' assume "JEntry c' \<in> set nm'"
      then have "JEntry c' \<in> set nm" unfolding nm' by (rule fold_nm_append_J)
      then show "\<exists>e_v. (I, e_v) \<in> set table \<and> JEntry c' \<in> set e_v"
        by (rule rekeyed_fromJ [OF assms(3)])
    next
      fix k ts t assume a: "VEntry k ts \<in> set nm' \<and> t \<in> set ts"
      then have "(\<exists>ts. VEntry k ts \<in> set nm \<and> t \<in> set ts) \<or> (k = ?k \<and> t \<in> ?pre ` set vv)"
        unfolding nm' using fold_nm_append_terms [of k ts ?k ?pre vv nm t] by blast
      then show "term_from_table table k t"
      proof
        assume "\<exists>ts. VEntry k ts \<in> set nm \<and> t \<in> set ts"
        with rekeyed_fromD [OF assms(3)] show ?thesis by blast
      next
        assume "k = ?k \<and> t \<in> ?pre ` set vv"
        then have "translate_entry e_k entry = VEntry k (map ?pre vv)" "t \<in> set (map ?pre vv)"
          using tr by simp_all
        with assms(1,2) show ?thesis unfolding term_from_table_def by metis
      qed
    qed
  qed
qed

lemma fold_err_rekeyed:
  assumes "fold_err (\<lambda>(e_k, entry) nm'. vibronic_entry e_k entry nm') ps nm = Inr nm'"
    and "rekeyed_from table nm"
    and "\<forall>(e_k, entry) \<in> set ps. \<exists>e_v. (e_k, e_v) \<in> set table \<and> entry \<in> set e_v"
  shows "rekeyed_from table nm'"
  using assms
proof (induction ps arbitrary: nm)
  case Nil
  then show ?case by simp
next
  case (Cons p ps)
  obtain e_k entry where p: "p = (e_k, entry)" by (cases p)
  from Cons.prems(1) p obtain nm1 where
    s: "vibronic_entry e_k entry nm = Inr nm1"
    and r: "fold_err (\<lambda>(e_k, entry) nm'. vibronic_entry e_k entry nm') ps nm1 = Inr nm'"
    by (cases "vibronic_entry e_k entry nm") auto
  from Cons.prems(3) p obtain e_v where "(e_k, e_v) \<in> set table" "entry \<in> set e_v" by auto
  from vibronic_entry_rekeyed [OF this Cons.prems(2) s] have "rekeyed_from table nm1" .
  moreover have "\<forall>(e_k, entry) \<in> set ps. \<exists>e_v. (e_k, e_v) \<in> set table \<and> entry \<in> set e_v"
    using Cons.prems(3) by simp
  ultimately show ?case using Cons.IH [OF r] by blast
qed

lemma VibronicModel_new_model_rekeyed:
  assumes "VibronicModel_new_model table = Inr nm"
  shows "rekeyed_from table nm"
proof -
  let ?ps = "concat (map (\<lambda>(e_k, e_v). map (\<lambda>entry. (e_k, entry)) e_v) table)"
  have "\<forall>(e_k, entry) \<in> set ?ps. \<exists>e_v. (e_k, e_v) \<in> set table \<and> entry \<in> set e_v"
    by auto
  moreover have "rekeyed_from table []" by (simp add: rekeyed_from_def)
  ultimately show ?thesis
    using assms fold_err_rekeyed [of ?ps "[]" nm table]
    by (simp add: VibronicModel_new_model_def)
qed

lemma fold_err_total:
  "(\<And>x s. x \<in> set xs \<Longrightarrow> \<exists>s'. f x s = Inr s') \<Longrightarrow> \<exists>s'. fold_err f xs s = Inr s'"
proof (induction xs arbitrary: s)
  case Nil
  then show ?case by simp
next
  case (Cons x xs)
  from Cons.prems [of x s] obtain s1 where "f x s = Inr s1" by auto
  moreover from Cons.IH [of s1] Cons.prems obtain s2 where "fold_err f xs s1 = Inr s2"
    by (metis list.set_intros(2))
  ultimately show ?case by simp
qed

lemma vibronic_entry_total:
  "e_k = I \<or> (\<exists>ei ej. e_k = E [ei, ej]) \<Longrightarrow> \<exists>nm'. vibronic_entry e_k entry nm = Inr nm'"
  by (cases entry) (auto simp: vibronic_entry_def)

lemma VibronicModel_new_model_total:
  assumes "\<forall>(e_k, e_v) \<in> set table. e_k = I \<or> (\<exists>ei ej. e_k = E [ei, ej])"
  shows "\<exists>nm. VibronicModel_new_model table = Inr nm"
  unfolding VibronicModel_new_model_def
proof (rule fold_err_total)
  fix x :: "ekey \<times> 'a sub_entry" and s
  assume "x \<in> set (concat (map (\<lambda>(e_k, e_v). map (\<lambda>entry. (e_k, entry)) e_v) table))"
  with assms have "fst x = I \<or> (\<exists>ei ej. fst x = E [ei, ej])" by auto
  from vibronic_entry_total [OF this, of "snd x" s]
  show "\<exists>s'. (case x of (e_k, entry) \<Rightarrow> \<lambda>nm. vibronic_entry e_k entry nm) s = Inr s'"
    by (simp add: case_prod_unfold)
qed

lemma Model_init_stores_model:
  "Model_init order_in basis_in mo di = Inr m \<Longrightarrow> model m = mo \<and> dipole m = di"
  by (auto simp: Model_init_def Let_def split: sum.splits if_splits basis_arg.splits)

lemma translate_entry_cases:
  "translate_entry I entry = entry"
  "translate_entry (E [ei, ei]) (JEntry c) = VEntry [ei] [([number_op], c)]"
  "translate_entry (E [ei, ei]) (VEntry kk ts)
     = VEntry ([ei] @ kk) (map (\<lambda>(ops, c). ([number_op] @ ops, c)) ts)"
  "ei \<noteq> ej \<Longrightarrow> translate_entry (E [ei, ej]) (JEntry c)
     = VEntry [ei, ej] [([raising_op, lowering_op], c)]"
  "ei \<noteq> ej \<Longrightarrow> translate_entry (E [ei, ej]) (VEntry kk ts)
     = VEntry ([ei, ej] @ kk) (map (\<lambda>(ops, c). ([raising_op, lowering_op] @ ops, c)) ts)"
  by simp_all





end
